theory Spec2Isabelle
  imports Complex_Main
begin

section \<open>Python values and builtins used by app.py\<close>

text \<open>
  The handlers of \<^verbatim>\<open>app.py\<close> are modelled as functions from the state (session cart,
  flashed messages, database tables) and the request to an outcome and the state after the
  request. An exception that leaves a handler is the outcome \<open>Inl e\<close>; Flask answers it with
  an error page (500 for \<open>ValueError\<close>, \<open>TypeError\<close> and a failed commit, 404 and 400 for
  the aborts), and the state is whatever the handler had written before the exception.

  Python \<^verbatim>\<open>int\<close> is unbounded and is \<^typ>\<open>int\<close>. Strings are \<^typ>\<open>string\<close>: a character
  is a code point from 0 to 255 (Latin-1), and the builtins below are modelled on all of
  these. Text with code points beyond 255 is outside the model.

  A \<^verbatim>\<open>db.Float\<close> price is a Python \<^verbatim>\<open>float\<close>. The type of floats is a type variable
  \<open>'f\<close> with a zero, an addition and a multiplication of which nothing is assumed:
  no associativity, no commutativity, no exactness. What is proved therefore holds of
  binary64 with its rounding, infinities and NaN. Equality on \<open>'f\<close> is identity of the
  float value. The one operation that can raise is the conversion of an \<^verbatim>\<open>int\<close> operand
  in \<^verbatim>\<open>p.price * qty\<close>, see \<open>float_of_int\<close>.
\<close>

datatype error =
    ValueError        \<comment> \<open>\<^verbatim>\<open>int("abc")\<close>\<close>
  | TypeError         \<comment> \<open>\<^verbatim>\<open>int(None)\<close>\<close>
  | NotFound          \<comment> \<open>\<^verbatim>\<open>get_or_404\<close> aborts with 404\<close>
  | BadRequest        \<comment> \<open>\<^verbatim>\<open>request.form["name"]\<close> on a missing field aborts with 400\<close>
  | MethodNotAllowed  \<comment> \<open>the route does not list the HTTP verb (405)\<close>
  | CommitError       \<comment> \<open>\<^verbatim>\<open>db.session.commit()\<close> raised\<close>
  | OverflowError     \<comment> \<open>\<^verbatim>\<open>100.0 * 10**400\<close>: int too large to convert to float\<close>

text \<open>
  Whitespace for \<^verbatim>\<open>str.strip\<close> is what \<^verbatim>\<open>str.isspace\<close> accepts: codes 9 to 13, 28 to 32,
  133 and 160. \<^verbatim>\<open>int\<close> skips less: codes 9 to 13, 32, 133 and 160, so \<^verbatim>\<open>int("\x1c5")\<close>
  raises.
\<close>

definition is_space :: "char \<Rightarrow> bool" where
  "is_space c =
     (let n = (of_char c :: nat)
      in (9 \<le> n \<and> n \<le> 13) \<or> (28 \<le> n \<and> n \<le> 32) \<or> n = 133 \<or> n = 160)"

definition is_int_space :: "char \<Rightarrow> bool" where
  "is_int_space c =
     (let n = (of_char c :: nat) in (9 \<le> n \<and> n \<le> 13) \<or> n = 32 \<or> n = 133 \<or> n = 160)"

definition is_digit :: "char \<Rightarrow> bool" where
  "is_digit c = (let n = (of_char c :: nat) in 48 \<le> n \<and> n \<le> 57)"

definition digit_val :: "char \<Rightarrow> nat" where
  "digit_val c = of_char c - 48"

text \<open>\<^verbatim>\<open>s.strip()\<close>: leading and trailing whitespace removed.\<close>

definition strip :: "string \<Rightarrow> string" where
  "strip s = rev (dropWhile is_space (rev (dropWhile is_space s)))"

text \<open>
  \<^verbatim>\<open>s.lower()\<close>: the capital letters are codes 65 to 90 and, in the upper half, 192 to 222
  without the multiplication sign 215; each has its small letter 32 places on.
\<close>

definition lower_char :: "char \<Rightarrow> char" where
  "lower_char c =
     (let n = (of_char c :: nat)
      in if (65 \<le> n \<and> n \<le> 90) \<or> (192 \<le> n \<and> n \<le> 222 \<and> n \<noteq> 215) then char_of (n + 32) else c)"

definition lower :: "string \<Rightarrow> string" where
  "lower s = map lower_char s"

text \<open>
  \<^verbatim>\<open>int(s)\<close> for a string: surrounding whitespace is skipped, one sign is allowed, then
  decimal digits follow, where single underscores may separate digits. Everything else
  raises \<open>ValueError\<close>, and so does a string of more than 4300 digits (the interpreter's
  default limit; underscores and the sign do not count).
\<close>

fun digits_value :: "nat \<Rightarrow> string \<Rightarrow> nat option" where
  "digits_value acc [] = Some acc"
| "digits_value acc (c # cs) =
     (if c = CHR ''_'' then
        (case cs of
           [] \<Rightarrow> None
         | d # ds \<Rightarrow> if is_digit d then digits_value (acc * 10 + digit_val d) ds else None)
      else if is_digit c then digits_value (acc * 10 + digit_val c) cs
      else None)"

definition unsigned_value :: "string \<Rightarrow> nat option" where
  "unsigned_value t =
     (if 4300 < length (filter is_digit t) then None
      else
        (case t of
           [] \<Rightarrow> None
         | d # ds \<Rightarrow> if is_digit d then digits_value (digit_val d) ds else None))"

definition int_of_str :: "string \<Rightarrow> error + int" where
  "int_of_str s =
     (case rev (dropWhile is_int_space (rev (dropWhile is_int_space s))) of
        [] \<Rightarrow> Inl ValueError
      | c # cs \<Rightarrow>
          if c = CHR ''-'' then
            (case unsigned_value cs of None \<Rightarrow> Inl ValueError | Some n \<Rightarrow> Inr (- int n))
          else if c = CHR ''+'' then
            (case unsigned_value cs of None \<Rightarrow> Inl ValueError | Some n \<Rightarrow> Inr (int n))
          else
            (case unsigned_value (c # cs) of None \<Rightarrow> Inl ValueError | Some n \<Rightarrow> Inr (int n)))"

text \<open>\<^verbatim>\<open>int(x)\<close> where \<open>x\<close> is a string or \<^verbatim>\<open>None\<close>.\<close>

definition py_int :: "string option \<Rightarrow> error + int" where
  "py_int x = (case x of None \<Rightarrow> Inl TypeError | Some s \<Rightarrow> int_of_str s)"

text \<open>\<^verbatim>\<open>str(n)\<close> for an integer: decimal digits, with a minus sign when negative.\<close>

fun nat_digits :: "nat \<Rightarrow> string" where
  "nat_digits n =
     (if n < 10 then [char_of (48 + n)] else nat_digits (n div 10) @ [char_of (48 + n mod 10)])"

definition py_str :: "int \<Rightarrow> string" where
  "py_str i = (if i < 0 then CHR ''-'' # nat_digits (nat (- i)) else nat_digits (nat i))"

subsection \<open>Dictionaries in insertion order\<close>

text \<open>
  A Python \<^verbatim>\<open>dict\<close> iterates in insertion order, and \<^verbatim>\<open>cart_items\<close> builds its item list
  in that order, so a dictionary is an association list: \<^verbatim>\<open>d[k] = v\<close> overwrites in place
  or appends, \<^verbatim>\<open>d.pop(k, None)\<close> removes the entry, \<^verbatim>\<open>d.get(k, dflt)\<close> reads.
\<close>

fun dict_get :: "('k \<times> 'v) list \<Rightarrow> 'k \<Rightarrow> 'v \<Rightarrow> 'v" where
  "dict_get [] k dflt = dflt"
| "dict_get ((k', v) # d) k dflt = (if k' = k then v else dict_get d k dflt)"

fun dict_set :: "('k \<times> 'v) list \<Rightarrow> 'k \<Rightarrow> 'v \<Rightarrow> ('k \<times> 'v) list" where
  "dict_set [] k v = [(k, v)]"
| "dict_set ((k', v') # d) k v = (if k' = k then (k, v) # d else (k', v') # dict_set d k v)"

fun dict_pop :: "('k \<times> 'v) list \<Rightarrow> 'k \<Rightarrow> ('k \<times> 'v) list" where
  "dict_pop [] k = []"
| "dict_pop ((k', v') # d) k = (if k' = k then dict_pop d k else (k', v') # dict_pop d k)"

definition dict_keys :: "('k \<times> 'v) list \<Rightarrow> 'k list" where
  "dict_keys d = map fst d"

section \<open>Models\<close>

record user =
  u_id :: int
  u_name :: string
  u_email :: string
  u_password_hash :: string

record 'f product =
  p_id :: int
  p_title :: string
  p_description :: string
  p_price :: "'f"
  p_image_url :: "string option"
  p_category_id :: "int option"

text \<open>One entry of \<^verbatim>\<open>Order.items_json\<close>: \<^verbatim>\<open>{product_id, title, qty, price}\<close>.\<close>

record 'f order_item =
  oi_product_id :: int
  oi_title :: string
  oi_qty :: int
  oi_price :: "'f"

text \<open>
  \<^verbatim>\<open>items_json\<close> holds \<^verbatim>\<open>json.dumps(order_items)\<close>; the model keeps the list that the
  text encodes.
\<close>

record 'f order =
  o_id :: int
  o_user_id :: "int option"
  o_items_json :: "'f order_item list"
  o_total :: "'f"
  o_created_at :: nat

text \<open>An element of the list that \<^verbatim>\<open>cart_items\<close> returns.\<close>

record 'f line_item =
  li_product :: "'f product"
  li_qty :: int
  li_line_total :: "'f"

text \<open>
  The cart is \<^verbatim>\<open>session["cart"]\<close>. \<^verbatim>\<open>add_to_cart\<close> writes keys \<^verbatim>\<open>str(pid)\<close>;
  \<^verbatim>\<open>cart_view\<close> writes the key \<^verbatim>\<open>request.form.get("pid")\<close>, a string or \<^verbatim>\<open>None\<close>.
  A session without a cart reads as the empty cart (\<^verbatim>\<open>session.setdefault("cart", {})\<close>).
  The cookie that carries the session from one request to the next is outside the model:
  the next request starts from the cart the last one left.
\<close>

type_synonym cart = "(string option \<times> int) list"

record 'f state =
  cart :: cart
  flashes :: "(string \<times> string) list"
  products :: "'f product list"
  orders :: "'f order list"
  users :: "user list"

datatype http_method = GET | POST

text \<open>
  What a handler reads from outside the state: the HTTP verb (the field is \<^verbatim>\<open>request.method\<close>), the form fields, the referrer,
  the logged-in user's id (\<^verbatim>\<open>current_user\<close>), whether the commit of this request
  succeeds, the clock, and the salted hash that \<^verbatim>\<open>bcrypt.generate_password_hash\<close>
  computes in this request.
\<close>

record request =
  req_method :: http_method
  form :: "string \<rightharpoonup> string"
  referrer :: "string option"
  current_user :: "int option"
  commit_ok :: bool
  now :: nat
  generate_password_hash :: "string \<Rightarrow> string"

datatype 'f response =
    Redirect string
  | Render string
  | Render_cart string "'f line_item list" "'f"

type_synonym 'f outcome = "(error + 'f response) \<times> 'f state"

definition flash :: "string \<Rightarrow> string \<Rightarrow> 'f state \<Rightarrow> 'f state" where
  "flash message category s = s\<lparr>flashes := flashes s @ [(message, category)]\<rparr>"

text \<open>The primary key that the database gives a new row: one more than the largest.\<close>

definition next_id :: "int list \<Rightarrow> int" where
  "next_id ids = fold max ids 0 + 1"

section \<open>Helpers\<close>

definition get_cart :: "'f state \<Rightarrow> cart" where
  "get_cart s = cart s"

fun key_ids :: "string option list \<Rightarrow> error + int list" where
  "key_ids [] = Inr []"
| "key_ids (pid # pids) =
     (case py_int pid of
        Inl e \<Rightarrow> Inl e
      | Inr n \<Rightarrow> (case key_ids pids of Inl e \<Rightarrow> Inl e | Inr ns \<Rightarrow> Inr (n # ns)))"

text \<open>\<^verbatim>\<open>{p.id: p for p in products}\<close>: a later row with the same id overwrites.\<close>

fun by_id_from :: "(int \<rightharpoonup> 'f product) \<Rightarrow> 'f product list \<Rightarrow> (int \<rightharpoonup> 'f product)" where
  "by_id_from m [] = m"
| "by_id_from m (p # ps) = by_id_from (m(p_id p \<mapsto> p)) ps"

definition by_id_of :: "'f product list \<Rightarrow> (int \<rightharpoonup> 'f product)" where
  "by_id_of ps = by_id_from Map.empty ps"

text \<open>
  The \<^verbatim>\<open>int\<close> operand of \<^verbatim>\<open>p.price * qty\<close> is converted to a float first. The conversion
  rounds to nearest, ties to even, and raises \<open>OverflowError\<close> when the rounded value is
  beyond the largest float: from \<open>2^1024 - 2^970\<close> on, in absolute value. Below that
  bound the result is \<open>rnd n\<close>, the float nearest to \<open>n\<close>; \<open>rnd\<close> is a parameter of which
  nothing is assumed. The product and the sum of floats never raise.
\<close>

definition float_range :: "int \<Rightarrow> bool" where
  "float_range n \<longleftrightarrow> \<bar>n\<bar> < 2 ^ 1024 - 2 ^ 970"

definition float_of_int :: "(int \<Rightarrow> 'f) \<Rightarrow> int \<Rightarrow> error + 'f" where
  "float_of_int rnd n = (if float_range n then Inr (rnd n) else Inl OverflowError)"

fun cart_loop ::
  "(int \<Rightarrow> 'f) \<Rightarrow> (int \<rightharpoonup> 'f product) \<Rightarrow> cart \<Rightarrow> 'f line_item list \<Rightarrow> 'f::{plus,times} \<Rightarrow>
   error + ('f line_item list \<times> 'f)" where
  "cart_loop rnd by_id [] items tot = Inr (items, tot)"
| "cart_loop rnd by_id ((pid, qty) # c) items tot =
     (case py_int pid of
        Inl e \<Rightarrow> Inl e
      | Inr n \<Rightarrow>
          (case by_id n of
             None \<Rightarrow> cart_loop rnd by_id c items tot
           | Some p \<Rightarrow>
               (case float_of_int rnd qty of
                  Inl e \<Rightarrow> Inl e
                | Inr float_qty \<Rightarrow>
                    (let line_total = p_price p * float_qty
                     in cart_loop rnd by_id c
                          (items @ [\<lparr>li_product = p, li_qty = qty, li_line_total = line_total\<rparr>])
                          (tot + line_total)))))"

definition cart_items ::
  "(int \<Rightarrow> 'f) \<Rightarrow> 'f::{zero,plus,times} state \<Rightarrow> error + ('f line_item list \<times> 'f)" where
  "cart_items rnd s =
     (let c = get_cart s in
      case key_ids (dict_keys c) of
        Inl e \<Rightarrow> Inl e
      | Inr ids \<Rightarrow>
          (let prods = (if ids \<noteq> [] then filter (\<lambda>p. p_id p \<in> set ids) (products s) else []);
               by_id = by_id_of prods
           in cart_loop rnd by_id c [] 0))"

section \<open>Routes\<close>

text \<open>\<^verbatim>\<open>int(request.form.get("qty", 1))\<close>: a missing field is the integer 1.\<close>

definition qty_of_form :: "request \<Rightarrow> error + int" where
  "qty_of_form req = (case form req ''qty'' of None \<Rightarrow> Inr 1 | Some v \<Rightarrow> int_of_str v)"

text \<open>\<^verbatim>\<open>Product.query.get_or_404(pid)\<close> reads the row with that primary key.\<close>

definition get_product :: "'f state \<Rightarrow> int \<Rightarrow> 'f product option" where
  "get_product s pid = find (\<lambda>p. p_id p = pid) (products s)"

definition add_to_cart :: "'f state \<Rightarrow> int \<Rightarrow> request \<Rightarrow> 'f outcome" where
  "add_to_cart s pid req =
     (case qty_of_form req of
        Inl e \<Rightarrow> (Inl e, s)
      | Inr qty \<Rightarrow>
          (case get_product s pid of
             None \<Rightarrow> (Inl NotFound, s)
           | Some product \<Rightarrow>
               (let c = get_cart s;
                    s1 = s\<lparr>cart := dict_set c (Some (py_str pid))
                                   (dict_get c (Some (py_str pid)) 0 + max 1 qty)\<rparr>;
                    s2 = flash (''Added '' @ p_title product @ '' (x'' @ py_str qty @ '') to cart.'')
                           ''success'' s1
                in (Inr (Redirect (case referrer req of
                                     None \<Rightarrow> ''/''
                                   | Some r \<Rightarrow> if r = [] then ''/'' else r)), s2))))"

text \<open>The POST branch of \<^verbatim>\<open>cart_view\<close>, up to \<^verbatim>\<open>session.modified = True\<close>.\<close>

definition cart_post :: "'f state \<Rightarrow> request \<Rightarrow> error + 'f state" where
  "cart_post s req =
     (let action = form req ''action'';
          pid = form req ''pid'';
          c = get_cart s
      in if action = Some ''update'' then
           (case qty_of_form req of
              Inl e \<Rightarrow> Inl e
            | Inr q \<Rightarrow>
                (let qty = max 0 q
                 in if qty = 0 then Inr (s\<lparr>cart := dict_pop c pid\<rparr>)
                    else Inr (s\<lparr>cart := dict_set c pid qty\<rparr>)))
         else if action = Some ''clear'' then Inr (s\<lparr>cart := []\<rparr>)
         else Inr s)"

definition cart_view ::
  "(int \<Rightarrow> 'f) \<Rightarrow> 'f::{zero,plus,times} state \<Rightarrow> request \<Rightarrow> 'f outcome" where
  "cart_view rnd s req =
     (case (if req_method req = POST then cart_post s req else Inr s) of
        Inl e \<Rightarrow> (Inl e, s)
      | Inr s1 \<Rightarrow>
          (case cart_items rnd s1 of
             Inl e \<Rightarrow> (Inl e, s1)
           | Inr (items, tot) \<Rightarrow> (Inr (Render_cart ''cart.html'' items tot), s1)))"

definition order_item_of :: "'f line_item \<Rightarrow> 'f order_item" where
  "order_item_of it =
     \<lparr>oi_product_id = p_id (li_product it), oi_title = p_title (li_product it),
      oi_qty = li_qty it, oi_price = p_price (li_product it)\<rparr>"

definition checkout ::
  "(int \<Rightarrow> 'f) \<Rightarrow> 'f::{zero,plus,times} state \<Rightarrow> request \<Rightarrow> 'f outcome" where
  "checkout rnd s req =
     (case cart_items rnd s of
        Inl e \<Rightarrow> (Inl e, s)
      | Inr (items, tot) \<Rightarrow>
          if req_method req = POST then
            (if items = [] then
               (Inr (Redirect ''/''), flash ''Your cart is empty.'' ''warning'' s)
             else
               (let order_items = map order_item_of items;
                    order = \<lparr>o_id = next_id (map o_id (orders s)),
                             o_user_id = current_user req,
                             o_items_json = order_items,
                             o_total = tot,
                             o_created_at = now req\<rparr>
                in if commit_ok req then
                     (Inr (Redirect ''/''),
                      flash (''Order #'' @ py_str (o_id order) @ '' placed successfully!'') ''success''
                        (s\<lparr>orders := orders s @ [order], cart := []\<rparr>))
                   else (Inl CommitError, s)))
          else (Inr (Render_cart ''checkout.html'' items tot), s))"

definition register :: "'f state \<Rightarrow> request \<Rightarrow> 'f outcome" where
  "register s req =
     (if req_method req = POST then
        (case form req ''name'' of
           None \<Rightarrow> (Inl BadRequest, s)
         | Some name0 \<Rightarrow>
        (case form req ''email'' of
           None \<Rightarrow> (Inl BadRequest, s)
         | Some email0 \<Rightarrow>
        (case form req ''password'' of
           None \<Rightarrow> (Inl BadRequest, s)
         | Some password \<Rightarrow>
             (let name = strip name0;
                  email = strip (lower email0)
              in if find (\<lambda>u. u_email u = email) (users s) \<noteq> None then
                   (Inr (Redirect ''/register''), flash ''Email already registered.'' ''warning'' s)
                 else
                   (let user = \<lparr>u_id = next_id (map u_id (users s)), u_name = name,
                                u_email = email,
                                u_password_hash = generate_password_hash req password\<rparr>
                    in if commit_ok req then
                         (Inr (Redirect ''/login''),
                          flash ''Registration successful. Please login.'' ''success''
                            (s\<lparr>users := users s @ [user]\<rparr>))
                       else (Inl CommitError, s))))))
      else (Inr (Render ''register.html''), s))"

subsection \<open>A session as a sequence of requests\<close>

text \<open>
  The routes that write the cart or a table. \<^verbatim>\<open>index\<close>, \<^verbatim>\<open>product_detail\<close>, \<^verbatim>\<open>login\<close> and
  \<^verbatim>\<open>logout\<close> write neither; who is logged in is a field of each request.
\<close>

datatype route = Add_to_cart int | Cart_view | Checkout | Register

definition handle ::
  "(int \<Rightarrow> 'f) \<Rightarrow> 'f::{zero,plus,times} state \<Rightarrow> route \<times> request \<Rightarrow> 'f outcome" where
  "handle rnd s rr =
     (case rr of
        (Add_to_cart pid, req) \<Rightarrow>
          if req_method req = POST then add_to_cart s pid req else (Inl MethodNotAllowed, s)
      | (Cart_view, req) \<Rightarrow> cart_view rnd s req
      | (Checkout, req) \<Rightarrow> checkout rnd s req
      | (Register, req) \<Rightarrow> register s req)"

definition step ::
  "(int \<Rightarrow> 'f) \<Rightarrow> 'f::{zero,plus,times} state \<Rightarrow> route \<times> request \<Rightarrow> 'f state" where
  "step rnd s rr = snd (handle rnd s rr)"

definition run ::
  "(int \<Rightarrow> 'f) \<Rightarrow> 'f::{zero,plus,times} state \<Rightarrow> (route \<times> request) list \<Rightarrow> 'f state" where
  "run rnd s rs = foldl (step rnd) s rs"

section \<open>Example data\<close>

text \<open>
  A catalog with the one product of the spec's scenarios (id 5, price 100.0), an empty
  session, and POST requests built from their form fields.

  The examples are run on the numbers themselves: \<open>demo_round\<close> is the embedding of the
  integers. Every number in the examples is an integer below \<open>2^53\<close>, which a binary64
  float holds exactly, so the floats of the examples are these numbers. The theorems do
  not use \<open>demo_round\<close>: they hold for every \<open>rnd\<close> and every float type.
\<close>

definition demo_round :: "int \<Rightarrow> real" where
  "demo_round n = of_int n"

text \<open>A quantity of 401 digits: \<^verbatim>\<open>10**400\<close>.\<close>

definition huge_qty :: int where
  "huge_qty = 10 ^ 400"

definition demo_product :: "real product" where
  "demo_product =
     \<lparr>p_id = 5, p_title = ''Programming Book'',
      p_description = ''Master Python with practical examples.'', p_price = 100,
      p_image_url = None, p_category_id = None\<rparr>"

definition demo_state :: "real state" where
  "demo_state = \<lparr>cart = [], flashes = [], products = [demo_product], orders = [], users = []\<rparr>"

definition post :: "(string \<times> string) list \<Rightarrow> request" where
  "post fs =
     \<lparr>req_method = POST, form = map_of fs, referrer = None, current_user = None,
      commit_ok = True, now = 0,
      generate_password_hash = (\<lambda>p. ''$2b$12$'' @ py_str (int (length p)))\<rparr>"

section \<open>The spec's cart total\<close>

text \<open>
  The spec's words, to compare \<^verbatim>\<open>cart_items\<close> with:
  \<^verbatim>\<open>total(C,K) == sum(p.price * qty for each (pid,qty) in C if pid in K)\<close>, and one line
  item \<^verbatim>\<open>{product, qty, line_total = product.price * qty}\<close> per entry found in the catalog
  \<open>K\<close>, in the cart's order. An entry's id is the integer its key denotes. The product
  is the float product of the price and the float nearest to the quantity; the sum is
  the float sum of the line totals, added one after the other from 0.0 in the cart's
  order.
\<close>

definition resolve ::
  "(int \<Rightarrow> 'f) \<Rightarrow> (int \<rightharpoonup> 'f::times product) \<Rightarrow> string option \<times> int \<Rightarrow> 'f line_item list" where
  "resolve rnd K e =
     (case py_int (fst e) of
        Inl _ \<Rightarrow> []
      | Inr n \<Rightarrow>
          (case K n of
             None \<Rightarrow> []
           | Some p \<Rightarrow> [\<lparr>li_product = p, li_qty = snd e, li_line_total = p_price p * rnd (snd e)\<rparr>]))"

definition spec_items ::
  "(int \<Rightarrow> 'f) \<Rightarrow> (int \<rightharpoonup> 'f::times product) \<Rightarrow> cart \<Rightarrow> 'f line_item list" where
  "spec_items rnd K c = concat (map (resolve rnd K) c)"

definition spec_total ::
  "(int \<Rightarrow> 'f) \<Rightarrow> (int \<rightharpoonup> 'f::{zero,plus,times} product) \<Rightarrow> cart \<Rightarrow> 'f" where
  "spec_total rnd K c = foldl (+) 0 (map li_line_total (spec_items rnd K c))"

text \<open>
  The quantities of the entries found in the catalog are in the range of the floats.
  (The quantity of a stale entry is never converted.)
\<close>

definition quantities_in_range :: "(int \<rightharpoonup> 'f product) \<Rightarrow> cart \<Rightarrow> bool" where
  "quantities_in_range K c =
     list_all (\<lambda>(pid, qty).
                 case py_int pid of
                   Inl _ \<Rightarrow> True
                 | Inr n \<Rightarrow> (case K n of None \<Rightarrow> True | Some p \<Rightarrow> float_range qty)) c"

text \<open>The carts whose keys are product ids written as text: \<^verbatim>\<open>int\<close> reads every key.\<close>

definition int_keys :: "cart \<Rightarrow> bool" where
  "int_keys c = list_all (\<lambda>k. case py_int k of Inl _ \<Rightarrow> False | Inr _ \<Rightarrow> True) (dict_keys c)"

section \<open>Invariants\<close>

text \<open>The cart invariant of the spec: every stored quantity is at least 1.\<close>

definition cart_invariant :: "cart \<Rightarrow> bool" where
  "cart_invariant c = list_all (\<lambda>(pid, qty). 1 \<le> qty) c"

text \<open>A session: product 5 added with quantity \<open>-3\<close>, then updated to quantity 4.\<close>

definition demo_session :: "(route \<times> request) list" where
  "demo_session =
     [(Add_to_cart 5, post [(''qty'', ''-3'')]),
      (Cart_view, post [(''action'', ''update''), (''pid'', ''5''), (''qty'', ''4'')])]"






text \<open>A registration POST with the given name and email and the password \<^verbatim>\<open>pw\<close>.\<close>

definition demo_register :: "string \<Rightarrow> string \<Rightarrow> request" where
  "demo_register name0 email0 =
     post [(''name'', name0), (''email'', email0), (''password'', ''pw'')]"

section \<open>Dictionary facts\<close>

lemma map_of_dict_set: "map_of (dict_set d k v) = (map_of d)(k \<mapsto> v)"
  by (induction d k v rule: dict_set.induct) (auto simp: fun_eq_iff)

lemma dict_get_map_of: "dict_get d k dflt = (case map_of d k of None \<Rightarrow> dflt | Some v \<Rightarrow> v)"
  by (induction d k dflt rule: dict_get.induct) auto

lemma dict_keys_Cons [simp]: "dict_keys ((k, v) # d) = k # dict_keys d"
  by (simp add: dict_keys_def)

lemma dict_keys_Nil [simp]: "dict_keys [] = []"
  by (simp add: dict_keys_def)

lemma dict_keys_append [simp]: "dict_keys (d @ e) = dict_keys d @ dict_keys e"
  by (simp add: dict_keys_def)

lemma dict_set_fresh: "k \<notin> set (dict_keys d) \<Longrightarrow> dict_set d k v = d @ [(k, v)]"
  by (induction d k v rule: dict_set.induct) auto

lemma dict_keys_set_present: "k \<in> set (dict_keys d) \<Longrightarrow> dict_keys (dict_set d k v) = dict_keys d"
  by (induction d k v rule: dict_set.induct) auto

lemma dict_pop_absent: "k \<notin> set (dict_keys d) \<Longrightarrow> dict_pop d k = d"
  by (induction d k rule: dict_pop.induct) auto

lemma keys_dict_pop: "set (dict_keys (dict_pop d k)) = set (dict_keys d) - {k}"
  by (induction d k rule: dict_pop.induct) auto

lemma keys_dict_set: "set (dict_keys (dict_set d k v)) = insert k (set (dict_keys d))"
  by (induction d k v rule: dict_set.induct) auto

lemma dict_pop_removes: "k \<notin> set (dict_keys (dict_pop d k))"
  by (simp add: keys_dict_pop)

lemma set_dict_pop: "set (dict_pop d k) \<subseteq> set d"
  by (induction d k rule: dict_pop.induct) auto

lemma set_dict_set: "set (dict_set d k v) \<subseteq> insert (k, v) (set d)"
  by (induction d k v rule: dict_set.induct) auto

lemma dict_pop_dict_set: "dict_pop (dict_set d k v) k = dict_pop d k"
  by (induction d k v rule: dict_set.induct) auto

text \<open>The two writes keep the keys of an association list distinct, as a dict's are.\<close>

lemma distinct_dict_set: "distinct (dict_keys d) \<Longrightarrow> distinct (dict_keys (dict_set d k v))"
  by (induction d k v rule: dict_set.induct) (auto simp: keys_dict_set)

lemma distinct_dict_pop: "distinct (dict_keys d) \<Longrightarrow> distinct (dict_keys (dict_pop d k))"
  by (induction d k rule: dict_pop.induct) (auto simp: keys_dict_pop)

section \<open>Evaluating the builtins\<close>

lemmas int_of_str_eval =
  int_of_str_def is_int_space_def unsigned_value_def is_digit_def digit_val_def

lemma py_str_5: "py_str 5 = ''5''"
  by code_simp

lemma cart_flash [simp]: "cart (flash m c s) = cart s"
  by (simp add: flash_def)

lemma orders_flash [simp]: "orders (flash m c s) = orders s"
  by (simp add: flash_def)

lemma users_flash [simp]: "users (flash m c s) = users s"
  by (simp add: flash_def)

lemma products_flash [simp]: "products (flash m c s) = products s"
  by (simp add: flash_def)

lemma demo_get_product: "get_product demo_state 5 = Some demo_product"
  by (simp add: get_product_def demo_state_def demo_product_def)

section \<open>Cart mutation: add and update\<close>

lemma add_to_cart_ok:
  assumes "get_product s pid = Some product" and "qty_of_form req = Inr qty"
  shows "\<exists>r. add_to_cart s pid req =
           (Inr (Redirect r),
            flash (''Added '' @ p_title product @ '' (x'' @ py_str qty @ '') to cart.'') ''success''
              (s\<lparr>cart := dict_set (cart s) (Some (py_str pid))
                            (dict_get (cart s) (Some (py_str pid)) 0 + max 1 qty)\<rparr>))"
  using assms by (simp add: add_to_cart_def get_cart_def Let_def)

lemma add_to_cart_unknown:
  "get_product s pid = None \<Longrightarrow> qty_of_form req = Inr qty \<Longrightarrow>
   add_to_cart s pid req = (Inl NotFound, s)"
  by (simp add: add_to_cart_def)

lemma snd_cart_view:
  "snd (cart_view rnd s req) =
     (case (if req_method req = POST then cart_post s req else Inr s) of Inl e \<Rightarrow> s | Inr s1 \<Rightarrow> s1)"
  by (simp add: cart_view_def split: sum.splits prod.splits)

lemma cart_post_update:
  assumes "form req ''action'' = Some ''update''" and "qty_of_form req = Inr qty"
  shows "cart_post s req =
           Inr (s\<lparr>cart := (if qty \<le> 0 then dict_pop (cart s) (form req ''pid'')
                           else dict_set (cart s) (form req ''pid'') qty)\<rparr>)"
  using assms by (auto simp: cart_post_def get_cart_def Let_def max_def)

text \<open>
  C7. When \<^verbatim>\<open>add_to_cart\<close> is called for a product of the catalog with a quantity field
  that reads as the integer \<open>qty\<close> (zero and negative values included), the request
  succeeds and the cart maps \<^verbatim>\<open>str(pid)\<close> to the existing quantity plus \<open>max 1 qty\<close> when
  the key was present, and to \<open>max 1 qty\<close> when it was not; every other entry is as
  before. A present key keeps its position, a new key is appended.
\<close>

theorem add_to_cart_stores:
  assumes "get_product s pid = Some product" and "qty_of_form req = Inr qty"
  shows "\<exists>r s'. add_to_cart s pid req = (Inr r, s') \<and>
           map_of (cart s') =
             (map_of (cart s))(Some (py_str pid) \<mapsto>
                (case map_of (cart s) (Some (py_str pid)) of
                   Some existing \<Rightarrow> existing + max 1 qty
                 | None \<Rightarrow> max 1 qty)) \<and>
           (if Some (py_str pid) \<in> set (dict_keys (cart s))
            then dict_keys (cart s') = dict_keys (cart s)
            else cart s' = cart s @ [(Some (py_str pid), max 1 qty)])"
proof -
  let ?k = "Some (py_str pid)"
  obtain r where r: "add_to_cart s pid req =
           (Inr (Redirect r),
            flash (''Added '' @ p_title product @ '' (x'' @ py_str qty @ '') to cart.'') ''success''
              (s\<lparr>cart := dict_set (cart s) ?k (dict_get (cart s) ?k 0 + max 1 qty)\<rparr>))"
    using add_to_cart_ok [OF assms] by blast
  have absent: "?k \<notin> set (dict_keys (cart s)) \<Longrightarrow> map_of (cart s) ?k = None"
    by (simp add: dict_keys_def map_of_eq_None_iff)
  show ?thesis
    unfolding r
    apply (intro exI conjI)
      apply (rule refl)
     apply (simp add: map_of_dict_set dict_get_map_of split: option.splits)
    apply (simp add: dict_keys_set_present dict_set_fresh dict_get_map_of absent)
    done
qed

text \<open>The spec's scenario: product 5 added with quantity \<open>-3\<close> to an empty cart stores 1.\<close>

theorem add_to_cart_stores_witness:
  "get_product demo_state 5 = Some demo_product \<and>
   qty_of_form (post [(''qty'', ''-3'')]) = Inr (- 3) \<and>
   (\<exists>r s'. add_to_cart demo_state 5 (post [(''qty'', ''-3'')]) = (Inr r, s') \<and>
      cart s' = [(Some ''5'', 1)])"
proof -
  have q: "qty_of_form (post [(''qty'', ''-3'')]) = Inr (- 3)"
    by (simp add: qty_of_form_def post_def int_of_str_eval)
  have c: "cart demo_state = []"
    by (simp add: demo_state_def)
  show ?thesis
    using add_to_cart_stores [OF demo_get_product q] demo_get_product q
    by (auto simp: c py_str_5)
qed

text \<open>
  C10. A cart update with action \<open>update\<close> and a quantity above zero, for a key that is
  not in the cart, appends the entry \<open>(pid, qty)\<close> whatever the product table holds, the
  empty table included: the key is not looked up in the catalog. \<^verbatim>\<open>add_to_cart\<close> with the
  same form, for an id that no product has, answers 404 and leaves the state as it was.
\<close>

theorem cart_update_inserts_unchecked:
  assumes "req_method req = POST" and "form req ''action'' = Some ''update''"
    and "form req ''pid'' = Some pid" and "qty_of_form req = Inr qty" and "0 < qty"
    and "Some pid \<notin> set (dict_keys (cart s))"
  shows "cart (snd (cart_view rnd (s\<lparr>products := ps\<rparr>) req)) = cart s @ [(Some pid, qty)] \<and>
         (get_product s n = None \<longrightarrow> add_to_cart s n req = (Inl NotFound, s))"
proof -
  have "cart_post (s\<lparr>products := ps\<rparr>) req =
          Inr (s\<lparr>products := ps, cart := dict_set (cart s) (Some pid) qty\<rparr>)"
    using cart_post_update [OF assms(2,4), of "s\<lparr>products := ps\<rparr>"] assms(3,5) by simp
  then have "cart (snd (cart_view rnd (s\<lparr>products := ps\<rparr>) req)) = dict_set (cart s) (Some pid) qty"
    using assms(1) by (simp add: snd_cart_view)
  then show ?thesis
    using assms(4,6) by (simp add: dict_set_fresh add_to_cart_unknown)
qed

theorem cart_update_inserts_unchecked_witness:
  "cart (snd (cart_view demo_round (demo_state\<lparr>products := []\<rparr>)
           (post [(''action'', ''update''), (''pid'', ''abc''), (''qty'', ''2'')]))) =
     [(Some ''abc'', 2)] \<and>
   add_to_cart demo_state 7 (post [(''action'', ''update''), (''pid'', ''abc''), (''qty'', ''2'')]) =
     (Inl NotFound, demo_state)"
proof -
  let ?req = "post [(''action'', ''update''), (''pid'', ''abc''), (''qty'', ''2'')]"
  have m: "req_method ?req = POST" and a: "form ?req ''action'' = Some ''update''"
    and k: "form ?req ''pid'' = Some ''abc''"
    by (simp_all add: post_def)
  have q: "qty_of_form ?req = Inr 2"
    by (simp add: qty_of_form_def post_def int_of_str_eval)
  have f: "Some ''abc'' \<notin> set (dict_keys (cart demo_state))"
    by (simp add: demo_state_def)
  have n: "get_product demo_state 7 = None"
    by (simp add: get_product_def demo_state_def demo_product_def)
  show ?thesis
    using cart_update_inserts_unchecked
      [OF m a k q _ f, where ps = "[]" and n = 7 and rnd = demo_round] n
    by (simp add: demo_state_def)
qed

text \<open>
  C6, as amended. After \<^verbatim>\<open>add_to_cart\<close> for a product of the catalog and a cart update of
  the same key to quantity 0, the cart is the prior cart without its entry for that key.
  So no entry for the product remains, and the cart is exactly the prior cart when the
  prior cart had no entry for the product.
\<close>

theorem add_then_update_zero:
  assumes "get_product s pid = Some product" and "qty_of_form req = Inr qty"
    and "req_method req0 = POST" and "form req0 ''action'' = Some ''update''"
    and "form req0 ''pid'' = Some (py_str pid)" and "qty_of_form req0 = Inr 0"
  shows "cart (snd (cart_view rnd (snd (add_to_cart s pid req)) req0)) =
           dict_pop (cart s) (Some (py_str pid)) \<and>
         Some (py_str pid) \<notin>
           set (dict_keys (cart (snd (cart_view rnd (snd (add_to_cart s pid req)) req0)))) \<and>
         (Some (py_str pid) \<notin> set (dict_keys (cart s)) \<longrightarrow>
            cart (snd (cart_view rnd (snd (add_to_cart s pid req)) req0)) = cart s)"
proof -
  let ?k = "Some (py_str pid)"
  obtain r where "add_to_cart s pid req =
           (Inr (Redirect r),
            flash (''Added '' @ p_title product @ '' (x'' @ py_str qty @ '') to cart.'') ''success''
              (s\<lparr>cart := dict_set (cart s) ?k (dict_get (cart s) ?k 0 + max 1 qty)\<rparr>))"
    using add_to_cart_ok [OF assms(1,2)] by blast
  then have c1: "cart (snd (add_to_cart s pid req)) =
      dict_set (cart s) ?k (dict_get (cart s) ?k 0 + max 1 qty)"
    by simp
  have "cart (snd (cart_view rnd (snd (add_to_cart s pid req)) req0)) =
          dict_pop (cart (snd (add_to_cart s pid req))) ?k"
    using cart_post_update [OF assms(4,6), of "snd (add_to_cart s pid req)"] assms(3,5)
    by (simp add: snd_cart_view)
  then have eq: "cart (snd (cart_view rnd (snd (add_to_cart s pid req)) req0)) = dict_pop (cart s) ?k"
    by (simp add: c1 dict_pop_dict_set)
  show ?thesis
    unfolding eq by (simp add: dict_pop_removes dict_pop_absent)
qed

theorem add_then_update_zero_witness:
  "cart (snd (cart_view demo_round (snd (add_to_cart demo_state 5 (post [(''qty'', ''3'')])))
            (post [(''action'', ''update''), (''pid'', ''5''), (''qty'', ''0'')]))) =
     cart demo_state"
proof -
  let ?req0 = "post [(''action'', ''update''), (''pid'', ''5''), (''qty'', ''0'')]"
  have q: "qty_of_form (post [(''qty'', ''3'')]) = Inr 3"
    by (simp add: qty_of_form_def post_def int_of_str_eval)
  have m: "req_method ?req0 = POST" and a: "form ?req0 ''action'' = Some ''update''"
    and k: "form ?req0 ''pid'' = Some (py_str 5)"
    by (simp_all add: post_def py_str_5)
  have q0: "qty_of_form ?req0 = Inr 0"
    by (simp add: qty_of_form_def post_def int_of_str_eval)
  have f: "Some (py_str 5) \<notin> set (dict_keys (cart demo_state))"
    by (simp add: demo_state_def)
  show ?thesis
    using add_then_update_zero [OF demo_get_product q m a k q0] f by blast
qed

text \<open>
  The claim as stated fails for a cart that already holds the product: from the cart
  \<^verbatim>\<open>{"5": 2}\<close>, adding product 5 once and updating it to 0 leaves the empty cart.
\<close>

theorem add_then_update_zero_counterexample:
  "cart (snd (cart_view demo_round
            (snd (add_to_cart (demo_state\<lparr>cart := [(Some ''5'', 2)]\<rparr>) 5 (post [(''qty'', ''1'')])))
            (post [(''action'', ''update''), (''pid'', ''5''), (''qty'', ''0'')]))) \<noteq>
   cart (demo_state\<lparr>cart := [(Some ''5'', 2)]\<rparr>)"
  by (simp add: snd_cart_view cart_post_def add_to_cart_def qty_of_form_def post_def get_cart_def
      get_product_def demo_state_def demo_product_def py_str_5 int_of_str_eval flash_def)

section \<open>The cart computation\<close>

lemma int_keys_Nil [simp]: "int_keys []"
  by (simp add: int_keys_def)

lemma int_keys_Cons: "int_keys ((k, q) # c) \<longleftrightarrow> (\<exists>n. py_int k = Inr n) \<and> int_keys c"
  by (auto simp: int_keys_def split: sum.splits)

lemma quantities_in_range_Nil [simp]: "quantities_in_range K []"
  by (simp add: quantities_in_range_def)

lemma quantities_in_range_Cons:
  "py_int k = Inr n \<Longrightarrow>
   quantities_in_range K ((k, q) # c) \<longleftrightarrow>
     (K n \<noteq> None \<longrightarrow> float_range q) \<and> quantities_in_range K c"
  by (auto simp: quantities_in_range_def split: option.splits)

lemma quantities_in_range_iff:
  "quantities_in_range K c \<longleftrightarrow>
     (\<forall>(pid, qty)\<in>set c. \<forall>n. py_int pid = Inr n \<longrightarrow> K n \<noteq> None \<longrightarrow> float_range qty)"
  by (auto simp: quantities_in_range_def list_all_iff split: sum.splits option.splits)

lemma spec_total_Nil [simp]: "spec_total rnd K [] = 0"
  by (simp add: spec_total_def spec_items_def)

lemma spec_items_Nil [simp]: "spec_items rnd K [] = []"
  by (simp add: spec_items_def)

lemma float_of_int_range: "float_range q \<Longrightarrow> float_of_int rnd q = Inr (rnd q)"
  by (simp add: float_of_int_def)

lemma float_of_int_overflow: "\<not> float_range q \<Longrightarrow> float_of_int rnd q = Inl OverflowError"
  by (simp add: float_of_int_def)

text \<open>
  The loop, from any accumulators: the items found are appended, and their line totals
  are added to the running total one after the other.
\<close>

lemma cart_loop_spec:
  "int_keys c \<Longrightarrow> quantities_in_range K c \<Longrightarrow>
   cart_loop rnd K c items tot =
     Inr (items @ spec_items rnd K c, foldl (+) tot (map li_line_total (spec_items rnd K c)))"
proof (induction c arbitrary: items tot)
  case Nil
  then show ?case by simp
next
  case (Cons e c)
  obtain k q where e: "e = (k, q)" by (cases e)
  from Cons.prems(1) obtain n where n: "py_int k = Inr n" and c: "int_keys c"
    by (auto simp: e int_keys_Cons)
  have r: "K n \<noteq> None \<longrightarrow> float_range q" and rc: "quantities_in_range K c"
    using Cons.prems(2) by (simp_all add: e quantities_in_range_Cons [OF n])
  show ?case
  proof (cases "K n")
    case None
    then show ?thesis
      using Cons.IH [OF c rc] n by (simp add: e spec_items_def resolve_def)
  next
    case (Some p)
    then have "float_of_int rnd q = Inr (rnd q)"
      using r by (simp add: float_of_int_range)
    then show ?thesis
      using Cons.IH [OF c rc] n Some by (simp add: e spec_items_def resolve_def Let_def)
  qed
qed

lemma cart_loop_overflow:
  "int_keys c \<Longrightarrow> \<not> quantities_in_range K c \<Longrightarrow>
   cart_loop rnd K c items tot = Inl OverflowError"
proof (induction c arbitrary: items tot)
  case Nil
  then show ?case by simp
next
  case (Cons e c)
  obtain k q where e: "e = (k, q)" by (cases e)
  from Cons.prems(1) obtain n where n: "py_int k = Inr n" and c: "int_keys c"
    by (auto simp: e int_keys_Cons)
  show ?case
  proof (cases "K n")
    case None
    then have "\<not> quantities_in_range K c"
      using Cons.prems(2) by (simp add: e quantities_in_range_Cons [OF n])
    then show ?thesis
      using Cons.IH [OF c] n None by (simp add: e)
  next
    case (Some p)
    show ?thesis
    proof (cases "float_range q")
      case True
      then have "\<not> quantities_in_range K c"
        using Cons.prems(2) by (simp add: e quantities_in_range_Cons [OF n])
      then show ?thesis
        using Cons.IH [OF c] n Some True by (simp add: e float_of_int_range Let_def)
    next
      case False
      then show ?thesis
        using n Some by (simp add: e float_of_int_overflow)
    qed
  qed
qed

lemma cart_loop_cong:
  "(\<And>k n. k \<in> set (dict_keys c) \<Longrightarrow> py_int k = Inr n \<Longrightarrow> f n = g n) \<Longrightarrow>
   cart_loop rnd f c items tot = cart_loop rnd g c items tot"
proof (induction c arbitrary: items tot)
  case Nil
  then show ?case by simp
next
  case (Cons e c)
  obtain k q where e: "e = (k, q)" by (cases e)
  have IH: "cart_loop rnd f c i t = cart_loop rnd g c i t" for i t
  proof (rule Cons.IH)
    fix k' n
    assume "k' \<in> set (dict_keys c)" and "py_int k' = Inr n"
    then show "f n = g n" using Cons.prems [of k' n] by (simp add: e)
  qed
  show ?case
  proof (cases "py_int k")
    case (Inl err)
    then show ?thesis by (simp add: e)
  next
    case (Inr n)
    then have "f n = g n" using Cons.prems [of k n] by (simp add: e)
    then show ?thesis
      using Inr by (simp add: e IH Let_def split: option.splits sum.splits)
  qed
qed

lemma key_ids_Inr:
  "int_keys c \<Longrightarrow>
   \<exists>ns. key_ids (dict_keys c) = Inr ns \<and> length ns = length c \<and>
        (\<forall>k n. k \<in> set (dict_keys c) \<longrightarrow> py_int k = Inr n \<longrightarrow> n \<in> set ns)"
proof (induction c)
  case Nil
  then show ?case by simp
next
  case (Cons e c)
  obtain k q where e: "e = (k, q)" by (cases e)
  from Cons.prems obtain n where n: "py_int k = Inr n" and c: "int_keys c"
    by (auto simp: e int_keys_Cons)
  from Cons.IH [OF c] obtain ns where ns: "key_ids (dict_keys c) = Inr ns" "length ns = length c"
    "\<forall>k n. k \<in> set (dict_keys c) \<longrightarrow> py_int k = Inr n \<longrightarrow> n \<in> set ns"
    by blast
  show ?case
    using n ns by (auto simp: e)
qed

lemma key_ids_Inl: "key_ids ks = Inl err \<Longrightarrow> \<exists>k\<in>set ks. py_int k = Inl err"
  by (induction ks) (auto split: sum.splits)

lemma key_ids_int_keys: "key_ids (dict_keys c) = Inr ns \<Longrightarrow> int_keys c"
  by (induction c arbitrary: ns) (auto simp: int_keys_Cons split: sum.splits)

text \<open>
  The dictionary \<^verbatim>\<open>by_id\<close> is built from the rows that the query selects; on the ids of
  the cart it is the dictionary of the whole table.
\<close>

lemma by_id_from_cong: "m n = m' n \<Longrightarrow> by_id_from m ps n = by_id_from m' ps n"
proof (induction ps arbitrary: m m')
  case Nil
  then show ?case by simp
next
  case (Cons a ps)
  have "(m(p_id a \<mapsto> a)) n = (m'(p_id a \<mapsto> a)) n"
    using Cons.prems by simp
  then have "by_id_from (m(p_id a \<mapsto> a)) ps n = by_id_from (m'(p_id a \<mapsto> a)) ps n"
    by (rule Cons.IH)
  then show ?case
    by simp
qed

lemma by_id_from_filter:
  "by_id_from m (filter (\<lambda>p. p_id p \<in> A) ps) n =
     (if n \<in> A then by_id_from m ps n else m n)"
proof (induction ps arbitrary: m)
  case Nil
  then show ?case by simp
next
  case (Cons a ps)
  show ?case
  proof (cases "p_id a \<in> A")
    case True
    then have "n \<notin> A \<Longrightarrow> n \<noteq> p_id a" by blast
    then show ?thesis using True by (simp add: Cons.IH)
  next
    case False
    then have "n \<in> A \<Longrightarrow> by_id_from (m(p_id a \<mapsto> a)) ps n = by_id_from m ps n"
      by (intro by_id_from_cong) auto
    then show ?thesis using False by (simp add: Cons.IH)
  qed
qed

lemma by_id_of_filter:
  "by_id_of (filter (\<lambda>p. p_id p \<in> A) ps) n = (if n \<in> A then by_id_of ps n else None)"
  by (simp add: by_id_of_def by_id_from_filter)

lemma by_id_from_notin: "n \<notin> p_id ` set ps \<Longrightarrow> by_id_from m ps n = m n"
  by (induction ps arbitrary: m) simp_all


lemma by_id_from_None:
  "by_id_from m ps n = None \<longleftrightarrow> n \<notin> p_id ` set ps \<and> m n = None"
proof (induction ps arbitrary: m)
  case Nil
  then show ?case by simp
next
  case (Cons a ps)
  show ?case
    by (cases "p_id a = n") (simp_all add: Cons.IH)
qed


lemma by_id_of_None: "by_id_of ps n = None \<longleftrightarrow> n \<notin> p_id ` set ps"
  by (simp add: by_id_of_def by_id_from_None)

lemma by_id_from_find:
  "distinct (map p_id ps) \<Longrightarrow> n \<in> p_id ` set ps \<Longrightarrow>
   by_id_from m ps n = find (\<lambda>p. p_id p = n) ps"
proof (induction ps arbitrary: m)
  case Nil
  then show ?case by simp
next
  case (Cons a ps)
  show ?case
  proof (cases "p_id a = n")
    case True
    then have "n \<notin> p_id ` set ps" using Cons.prems(1) by auto
    then show ?thesis using True by (simp add: by_id_from_notin)
  next
    case False
    then have "n \<in> p_id ` set ps" "distinct (map p_id ps)" using Cons.prems by auto
    then show ?thesis using False Cons.IH by simp
  qed
qed

text \<open>With a primary key the dictionary is the lookup of \<^verbatim>\<open>get_or_404\<close>.\<close>

lemma by_id_of_get_product:
  "distinct (map p_id (products s)) \<Longrightarrow> by_id_of (products s) n = get_product s n"
proof (cases "n \<in> p_id ` set (products s)")
  case True
  assume "distinct (map p_id (products s))"
  then show ?thesis using True by (simp add: by_id_of_def get_product_def by_id_from_find)
next
  case False
  then have "find (\<lambda>p. p_id p = n) (products s) = None"
    by (auto simp: find_None_iff)
  then show ?thesis using False by (simp add: get_product_def by_id_of_None [THEN iffD2])
qed

text \<open>On a cart of product-id keys, \<^verbatim>\<open>cart_items\<close> is its loop over the whole catalog.\<close>

lemma cart_items_loop:
  assumes "int_keys (cart s)"
  shows "cart_items rnd s = cart_loop rnd (by_id_of (products s)) (cart s) [] 0"
proof -
  obtain ns where ns: "key_ids (dict_keys (cart s)) = Inr ns" "length ns = length (cart s)"
    "\<forall>k n. k \<in> set (dict_keys (cart s)) \<longrightarrow> py_int k = Inr n \<longrightarrow> n \<in> set ns"
    using key_ids_Inr [OF assms] by blast
  let ?prods = "if ns \<noteq> [] then filter (\<lambda>p. p_id p \<in> set ns) (products s) else []"
  have "cart_loop rnd (by_id_of ?prods) (cart s) [] 0 =
        cart_loop rnd (by_id_of (products s)) (cart s) [] 0"
  proof (rule cart_loop_cong)
    fix k n
    assume "k \<in> set (dict_keys (cart s))" and "py_int k = Inr n"
    then have "n \<in> set ns" using ns(3) by blast
    then show "by_id_of ?prods n = by_id_of (products s) n"
      by (auto simp: by_id_of_filter)
  qed
  then show ?thesis
    using ns(1) by (simp add: cart_items_def get_cart_def Let_def)
qed

lemma cart_items_spec:
  assumes "int_keys (cart s)" and "quantities_in_range (by_id_of (products s)) (cart s)"
  shows "cart_items rnd s =
           Inr (spec_items rnd (by_id_of (products s)) (cart s),
                spec_total rnd (by_id_of (products s)) (cart s))"
  using cart_loop_spec [OF assms, of rnd "[]" 0]
  by (simp add: cart_items_loop [OF assms(1)] spec_total_def)

lemma cart_items_overflow:
  assumes "int_keys (cart s)" and "\<not> quantities_in_range (by_id_of (products s)) (cart s)"
  shows "cart_items rnd s = Inl OverflowError"
  using cart_loop_overflow [OF assms, of rnd "[]" 0]
  by (simp add: cart_items_loop [OF assms(1)])

lemma cart_items_int_keys: "cart_items rnd s = Inr x \<Longrightarrow> int_keys (cart s)"
  by (cases "key_ids (dict_keys (cart s))")
    (simp_all add: cart_items_def get_cart_def key_ids_int_keys)

lemma cart_items_Inr:
  assumes "cart_items rnd s = Inr (items, tot)"
  shows "items = spec_items rnd (by_id_of (products s)) (cart s)"
    and "tot = spec_total rnd (by_id_of (products s)) (cart s)"
    and "quantities_in_range (by_id_of (products s)) (cart s)"
proof -
  have k: "int_keys (cart s)"
    using assms by (rule cart_items_int_keys)
  show r: "quantities_in_range (by_id_of (products s)) (cart s)"
    using assms cart_items_overflow [OF k, of rnd] by auto
  show "items = spec_items rnd (by_id_of (products s)) (cart s)"
    and "tot = spec_total rnd (by_id_of (products s)) (cart s)"
    using cart_items_spec [OF k r, of rnd] assms by simp_all
qed

text \<open>
  C1, as amended. For a cart whose keys are all strings that \<^verbatim>\<open>int\<close> reads (product ids
  written as text), when the quantity of every entry found in the catalog is in the
  range of the floats (below \<open>2^1024 - 2^970\<close> in absolute value), \<^verbatim>\<open>cart_items\<close>
  returns, and what it returns is: one line item per cart entry whose id is in the
  catalog, in cart order, with \<open>line_total = price * qty\<close> in float arithmetic, and as
  total the float sum of these line totals, added one after the other from 0.0 (the
  spec's \<open>total(C,K)\<close> read in float arithmetic, \<open>spec_total\<close>); an entry whose id is not in
  the catalog adds no item and nothing to the total. The empty cart gives no items and
  total 0.0. When the quantity of an entry found in the catalog is
  out of that range, \<^verbatim>\<open>cart_items\<close> raises \<open>OverflowError\<close>.
  The catalog is \<open>by_id_of (products s)\<close>; by \<open>by_id_of_Some\<close> and \<open>by_id_of_None\<close> an id
  is in it exactly when a product row has that id.
\<close>

theorem cart_items_total:
  assumes "int_keys (cart s)"
  shows "(quantities_in_range (by_id_of (products s)) (cart s) \<longrightarrow>
            (\<exists>items tot. cart_items rnd s = Inr (items, tot) \<and>
               items = spec_items rnd (by_id_of (products s)) (cart s) \<and>
               tot = spec_total rnd (by_id_of (products s)) (cart s) \<and>
               tot = foldl (+) 0 (map li_line_total items) \<and>
               (cart s = [] \<longrightarrow> items = [] \<and> tot = 0))) \<and>
         (\<not> quantities_in_range (by_id_of (products s)) (cart s) \<longrightarrow>
            cart_items rnd s = Inl OverflowError)"
proof (intro conjI impI)
  assume r: "quantities_in_range (by_id_of (products s)) (cart s)"
  show "\<exists>items tot. cart_items rnd s = Inr (items, tot) \<and>
               items = spec_items rnd (by_id_of (products s)) (cart s) \<and>
               tot = spec_total rnd (by_id_of (products s)) (cart s) \<and>
               tot = foldl (+) 0 (map li_line_total items) \<and>
               (cart s = [] \<longrightarrow> items = [] \<and> tot = 0)"
  proof (intro exI conjI)
    show "cart_items rnd s =
            Inr (spec_items rnd (by_id_of (products s)) (cart s),
                 spec_total rnd (by_id_of (products s)) (cart s))"
      by (rule cart_items_spec [OF assms r])
    show "spec_total rnd (by_id_of (products s)) (cart s) =
            foldl (+) 0 (map li_line_total (spec_items rnd (by_id_of (products s)) (cart s)))"
      by (simp add: spec_total_def)
    show "cart s = [] \<longrightarrow>
            spec_items rnd (by_id_of (products s)) (cart s) = [] \<and>
            spec_total rnd (by_id_of (products s)) (cart s) = 0"
      by simp
  qed (rule refl)+
next
  assume "\<not> quantities_in_range (by_id_of (products s)) (cart s)"
  then show "cart_items rnd s = Inl OverflowError"
    by (rule cart_items_overflow [OF assms])
qed

lemma py_int_5: "py_int (Some ''5'') = Inr 5"
  by (simp add: py_int_def int_of_str_eval)

lemma py_int_7: "py_int (Some ''7'') = Inr 7"
  by (simp add: py_int_def int_of_str_eval)

lemma py_int_abc: "py_int (Some ''abc'') = Inl ValueError"
  by (simp add: py_int_def int_of_str_eval)

lemma demo_by_id_5: "by_id_of (products demo_state) 5 = Some demo_product"
  by (simp add: by_id_of_def demo_state_def demo_product_def)

lemma demo_by_id_7: "by_id_of (products demo_state) 7 = None"
  by (simp add: by_id_of_def demo_state_def demo_product_def)

lemma float_range_2: "float_range 2"
  by (simp add: float_range_def)

lemma float_range_huge: "\<not> float_range huge_qty"
  by (simp add: float_range_def huge_qty_def)

text \<open>
  The spec's scenario with a stale entry added: cart \<^verbatim>\<open>{"5": 2, "7": 1}\<close>, product 5
  priced 100.0 and no product 7.
\<close>

theorem cart_items_total_witness:
  "int_keys (cart (demo_state\<lparr>cart := [(Some ''5'', 2), (Some ''7'', 1)]\<rparr>)) \<and>
   cart_items demo_round (demo_state\<lparr>cart := [(Some ''5'', 2), (Some ''7'', 1)]\<rparr>) =
     Inr ([\<lparr>li_product = demo_product, li_qty = 2, li_line_total = 200\<rparr>], 200)"
proof -
  let ?s = "demo_state\<lparr>cart := [(Some ''5'', 2), (Some ''7'', 1)]\<rparr>"
  have k: "int_keys (cart ?s)"
    by (simp add: int_keys_def py_int_5 py_int_7)
  have p: "products ?s = products demo_state"
    by simp
  have r: "quantities_in_range (by_id_of (products ?s)) (cart ?s)"
    unfolding p
    by (simp add: quantities_in_range_def py_int_5 py_int_7 demo_by_id_5 demo_by_id_7
        float_range_2)
  have i: "spec_items demo_round (by_id_of (products ?s)) (cart ?s) =
        [\<lparr>li_product = demo_product, li_qty = 2, li_line_total = 200\<rparr>]"
    unfolding p
    by (simp add: spec_items_def resolve_def py_int_5 py_int_7 demo_by_id_5 demo_by_id_7)
      (simp add: demo_product_def demo_round_def)
  from cart_items_total [OF k, of demo_round, THEN conjunct1, rule_format, OF r]
  obtain items tot where
    "cart_items demo_round ?s = Inr (items, tot)"
    "items = spec_items demo_round (by_id_of (products ?s)) (cart ?s)"
    "tot = foldl (+) 0 (map li_line_total items)"
    by blast
  then have "cart_items demo_round ?s =
      Inr ([\<lparr>li_product = demo_product, li_qty = 2, li_line_total = 200\<rparr>],
           foldl (+) 0 (map li_line_total
             [\<lparr>li_product = demo_product, li_qty = 2, li_line_total = (200::real)\<rparr>]))"
    by (simp only: i)
  then show ?thesis
    using k by simp
qed

text \<open>
  The claim as stated fails for a cart that an add-to-cart with a quantity of 401 digits
  builds: \<^verbatim>\<open>{"5": 10**400}\<close> with product 5 in the catalog. \<^verbatim>\<open>p.price * qty\<close> raises
  \<open>OverflowError\<close> and \<^verbatim>\<open>cart_items\<close> returns nothing.
\<close>

theorem cart_items_total_counterexample:
  "int_keys (cart (demo_state\<lparr>cart := [(Some ''5'', huge_qty)]\<rparr>)) \<and>
   cart_items demo_round (demo_state\<lparr>cart := [(Some ''5'', huge_qty)]\<rparr>) = Inl OverflowError"
proof -
  let ?s = "demo_state\<lparr>cart := [(Some ''5'', huge_qty)]\<rparr>"
  have k: "int_keys (cart ?s)"
    by (simp add: int_keys_def py_int_5)
  have p: "products ?s = products demo_state"
    by simp
  have r: "\<not> quantities_in_range (by_id_of (products ?s)) (cart ?s)"
    unfolding p by (simp add: quantities_in_range_def py_int_5 demo_by_id_5 float_range_huge)
  show ?thesis
    using cart_items_overflow [OF k r, of demo_round] k by simp
qed

text \<open>
  A key that \<^verbatim>\<open>int\<close> does not read is not skipped: \<^verbatim>\<open>int(pid)\<close> raises before any
  lookup, for a string that is no number and for the key \<^verbatim>\<open>None\<close>.
\<close>

lemma cart_items_bad_key:
  "cart_items demo_round (demo_state\<lparr>cart := [(Some ''5'', 2), (Some ''abc'', 1)]\<rparr>) =
     Inl ValueError"
  by (simp add: cart_items_def get_cart_def py_int_5 py_int_abc)

lemma cart_items_None_key:
  "cart_items demo_round (demo_state\<lparr>cart := [(None, 1)]\<rparr>) = Inl TypeError"
  by (simp add: cart_items_def get_cart_def py_int_def)

section \<open>The cart invariant\<close>

lemma cart_invariant_Nil [simp]: "cart_invariant []"
  by (simp add: cart_invariant_def)

lemma cart_invariant_iff: "cart_invariant c \<longleftrightarrow> (\<forall>(pid, qty) \<in> set c. 1 \<le> qty)"
  by (simp add: cart_invariant_def list_all_iff)

lemma cart_invariant_dict_set:
  "cart_invariant c \<Longrightarrow> 1 \<le> v \<Longrightarrow> cart_invariant (dict_set c k v)"
  using set_dict_set [of c k v] by (auto simp: cart_invariant_iff)

lemma cart_invariant_dict_pop: "cart_invariant c \<Longrightarrow> cart_invariant (dict_pop c k)"
  using set_dict_pop [of c k] by (auto simp: cart_invariant_iff)

lemma dict_get_nonneg: "cart_invariant c \<Longrightarrow> 0 \<le> dict_get c k 0"
  by (induction c k "0::int" rule: dict_get.induct) (auto simp: cart_invariant_def)

lemma cart_invariant_add_to_cart:
  assumes "cart_invariant (cart s)"
  shows "cart_invariant (cart (snd (add_to_cart s pid req)))"
proof (cases "qty_of_form req")
  case (Inl e)
  then show ?thesis using assms by (simp add: add_to_cart_def)
next
  case (Inr qty)
  show ?thesis
  proof (cases "get_product s pid")
    case None
    then show ?thesis using assms Inr by (simp add: add_to_cart_def)
  next
    case (Some product)
    have "1 \<le> dict_get (cart s) (Some (py_str pid)) 0 + max 1 qty"
      using dict_get_nonneg [OF assms, of "Some (py_str pid)"] by simp
    then show ?thesis
      using assms Inr Some
      by (simp add: add_to_cart_def get_cart_def Let_def cart_invariant_dict_set)
  qed
qed

lemma cart_invariant_cart_post:
  assumes "cart_invariant (cart s)" and "cart_post s req = Inr s1"
  shows "cart_invariant (cart s1)"
proof (cases "form req ''action'' = Some ''update''")
  case True
  from assms(2) True obtain q where q: "qty_of_form req = Inr q"
    by (cases "qty_of_form req") (simp_all add: cart_post_def)
  have "s1 = s\<lparr>cart := (if q \<le> 0 then dict_pop (cart s) (form req ''pid'')
                           else dict_set (cart s) (form req ''pid'') q)\<rparr>"
    using cart_post_update [OF True q, of s] assms(2) by simp
  then show ?thesis
    using assms(1) by (simp add: cart_invariant_dict_pop cart_invariant_dict_set)
next
  case False
  then have "s1 = s\<lparr>cart := []\<rparr> \<or> s1 = s"
    using assms(2) by (auto simp: cart_post_def split: if_splits)
  then show ?thesis using assms(1) by auto
qed

lemma cart_invariant_cart_view:
  assumes "cart_invariant (cart s)"
  shows "cart_invariant (cart (snd (cart_view rnd s req)))"
  using assms cart_invariant_cart_post [OF assms, of req]
  by (auto simp: snd_cart_view split: sum.splits)

lemma cart_checkout: "cart (snd (checkout rnd s req)) = cart s \<or> cart (snd (checkout rnd s req)) = []"
  by (simp add: checkout_def Let_def split: sum.splits prod.splits)

lemma cart_register: "cart (snd (register s req)) = cart s"
  by (simp add: register_def Let_def split: option.splits)

lemma cart_invariant_step:
  assumes "cart_invariant (cart s)"
  shows "cart_invariant (cart (step rnd s rr))"
proof (cases rr)
  case (Pair rt req)
  show ?thesis
  proof (cases rt)
    case (Add_to_cart pid)
    then show ?thesis
      using assms cart_invariant_add_to_cart [OF assms, of pid req]
      by (simp add: step_def handle_def Pair)
  next
    case Cart_view
    then show ?thesis
      using cart_invariant_cart_view [OF assms, where req = req and rnd = rnd]
      by (simp add: step_def handle_def Pair)
  next
    case Checkout
    then show ?thesis
      using assms cart_checkout [where s = s and req = req and rnd = rnd]
      by (auto simp: step_def handle_def Pair)
  next
    case Register
    then show ?thesis
      using assms by (simp add: step_def handle_def Pair cart_register)
  qed
qed

lemma run_snoc: "run rnd s (rs @ [rr]) = step rnd (run rnd s rs) rr"
  by (simp add: run_def)

lemma run_Nil [simp]: "run rnd s [] = s"
  by (simp add: run_def)

lemma cart_invariant_run: "cart_invariant (cart s) \<Longrightarrow> cart_invariant (cart (run rnd s rs))"
  by (induction rs rule: rev_induct) (simp_all add: run_snoc cart_invariant_step)

lemma cart_view_update_zero:
  assumes "req_method req = POST" and "form req ''action'' = Some ''update''"
    and "qty_of_form req = Inr q" and "q \<le> 0"
  shows "cart (snd (cart_view rnd s req)) = dict_pop (cart s) (form req ''pid'')"
  using cart_post_update [OF assms(2,3), of s] assms(1,4) by (simp add: snd_cart_view)

text \<open>
  C8. From a state with an empty cart, after any sequence of requests to the routes
  (add to cart, cart update and clear, checkout, register; failed requests included)
  every stored quantity is an integer of at least 1, and a cart update whose quantity
  reads as 0 or less leaves no entry for its key.
\<close>

theorem cart_invariant_preserved:
  assumes "cart s0 = []"
  shows "cart_invariant (cart (run rnd s0 rs)) \<and>
         (\<forall>(pid, qty) \<in> set (cart (run rnd s0 rs)). 1 \<le> qty) \<and>
         (\<forall>req q. req_method req = POST \<and> form req ''action'' = Some ''update'' \<and>
                  qty_of_form req = Inr q \<and> q \<le> 0 \<longrightarrow>
            form req ''pid'' \<notin> set (dict_keys (cart (step rnd (run rnd s0 rs) (Cart_view, req)))))"
proof -
  have inv: "cart_invariant (cart (run rnd s0 rs))"
    using assms by (intro cart_invariant_run) simp
  have del: "form req ''pid'' \<notin> set (dict_keys (cart (step rnd (run rnd s0 rs) (Cart_view, req))))"
    if "req_method req = POST" "form req ''action'' = Some ''update''"
       "qty_of_form req = Inr q" "q \<le> 0" for req q
    using cart_view_update_zero [OF that, where s = "run rnd s0 rs" and rnd = rnd]
    by (simp add: step_def handle_def dict_pop_removes)
  show ?thesis
    using inv del by (simp add: cart_invariant_iff [symmetric])
qed


lemma demo_session_cart: "cart (run demo_round demo_state demo_session) = [(Some ''5'', 4)]"
proof -
  have q1: "qty_of_form (post [(''qty'', ''-3'')]) = Inr (- 3)"
    by (simp add: qty_of_form_def post_def int_of_str_eval)
  have c1: "cart (step demo_round demo_state (Add_to_cart 5, post [(''qty'', ''-3'')])) = [(Some ''5'', 1)]"
    using add_to_cart_ok [OF demo_get_product q1]
    by (auto simp: step_def handle_def post_def py_str_5 demo_state_def)
  let ?req = "post [(''action'', ''update''), (''pid'', ''5''), (''qty'', ''4'')]"
  have q2: "qty_of_form ?req = Inr 4"
    by (simp add: qty_of_form_def post_def int_of_str_eval)
  have a: "form ?req ''action'' = Some ''update''" and k: "form ?req ''pid'' = Some ''5''"
    and m: "req_method ?req = POST"
    by (simp_all add: post_def)
  have "cart (step demo_round s (Cart_view, ?req)) = dict_set (cart s) (Some ''5'') 4" for s
    using cart_post_update [OF a q2, of s] m k by (simp add: step_def handle_def snd_cart_view)
  then show ?thesis
    by (simp add: demo_session_def run_def c1)
qed

theorem cart_invariant_preserved_witness:
  "cart demo_state = [] \<and>
   cart (run demo_round demo_state demo_session) = [(Some ''5'', 4)] \<and>
   cart_invariant (cart (run demo_round demo_state demo_session)) \<and>
   Some ''5'' \<notin> set (dict_keys (cart (step demo_round (run demo_round demo_state demo_session)
      (Cart_view, post [(''action'', ''update''), (''pid'', ''5''), (''qty'', ''0'')]))))"
proof -
  let ?req = "post [(''action'', ''update''), (''pid'', ''5''), (''qty'', ''0'')]"
  have e: "cart demo_state = []"
    by (simp add: demo_state_def)
  have q: "qty_of_form ?req = Inr 0"
    by (simp add: qty_of_form_def post_def int_of_str_eval)
  have h: "req_method ?req = POST \<and> form ?req ''action'' = Some ''update'' \<and>
           qty_of_form ?req = Inr 0 \<and> (0::int) \<le> 0"
    using q by (simp add: post_def)
  have k: "form ?req ''pid'' = Some ''5''"
    by (simp add: post_def)
  note t = cart_invariant_preserved [OF e, where rs = demo_session and rnd = demo_round]
  have "form ?req ''pid'' \<notin>
          set (dict_keys (cart (step demo_round (run demo_round demo_state demo_session) (Cart_view, ?req))))"
    using t [THEN conjunct2, THEN conjunct2, rule_format, OF h] .
  then show ?thesis
    using t [THEN conjunct1] e by (simp add: k demo_session_cart)
qed

section \<open>Checkout\<close>

lemma fold_max_bounds:
  fixes a :: int
  shows "a \<le> fold max ids a \<and> (\<forall>x\<in>set ids. x \<le> fold max ids a)"
proof (induction ids arbitrary: a)
  case Nil
  then show ?case by simp
next
  case (Cons i ids)
  have "max i a \<le> fold max ids (max i a)" and "\<forall>x\<in>set ids. x \<le> fold max ids (max i a)"
    using Cons.IH [of "max i a"] by simp_all
  then show ?case by auto
qed

lemma next_id_fresh: "next_id ids \<notin> set ids"
  using fold_max_bounds [of 0 ids] by (auto simp: next_id_def)

lemma next_id_positive: "1 \<le> next_id ids"
  using fold_max_bounds [of 0 ids] by (simp add: next_id_def)





lemma checkout_POST:
  assumes "req_method req = POST" and "cart_items rnd s = Inr (items, tot)"
  shows "checkout rnd s req =
     (if items = [] then (Inr (Redirect ''/''), flash ''Your cart is empty.'' ''warning'' s)
      else if commit_ok req then
        (Inr (Redirect ''/''),
         flash (''Order #'' @ py_str (next_id (map o_id (orders s))) @ '' placed successfully!'')
           ''success''
           (s\<lparr>orders := orders s @
                 [\<lparr>o_id = next_id (map o_id (orders s)), o_user_id = current_user req,
                   o_items_json = map order_item_of items, o_total = tot,
                   o_created_at = now req\<rparr>],
               cart := []\<rparr>))
      else (Inl CommitError, s))"
  using assms by (simp add: checkout_def Let_def)

lemma checkout_other:
  "req_method req \<noteq> POST \<or> (\<exists>e. cart_items rnd s = Inl e) \<Longrightarrow> snd (checkout rnd s req) = s"
  by (auto simp: checkout_def split: sum.splits prod.splits)




lemma checkout_cart_cleared:
  assumes "cart (snd (checkout rnd s req)) \<noteq> cart s"
  shows "\<exists>ord. orders (snd (checkout rnd s req)) = orders s @ [ord] \<and> cart (snd (checkout rnd s req)) = []"
proof (cases "req_method req = POST \<and> (\<exists>items tot. cart_items rnd s = Inr (items, tot))")
  case False
  then have "req_method req \<noteq> POST \<or> (\<exists>e. cart_items rnd s = Inl e)"
    by (cases "cart_items rnd s") auto
  then show ?thesis using assms checkout_other [of req rnd s] by simp
next
  case True
  then obtain items tot where m: "req_method req = POST" and ci: "cart_items rnd s = Inr (items, tot)"
    by blast
  show ?thesis
    using assms by (auto simp: checkout_POST [OF m ci] split: if_splits)
qed















text \<open>
  The resolved item list is empty exactly when every key is an id and no id has a
  product row: the empty cart, or a cart of stale ids only.
\<close>

lemma resolve_Nil_iff:
  "resolve rnd K e = [] \<longleftrightarrow> (\<forall>n. py_int (fst e) = Inr n \<longrightarrow> K n = None)"
  by (auto simp: resolve_def split: sum.splits option.splits)

lemma spec_items_Nil_iff:
  "spec_items rnd K c = [] \<longleftrightarrow> (\<forall>(pid, qty)\<in>set c. \<forall>n. py_int pid = Inr n \<longrightarrow> K n = None)"
  by (auto simp: spec_items_def resolve_Nil_iff)

lemma cart_items_empty_iff:
  "(\<exists>tot. cart_items rnd s = Inr ([], tot)) \<longleftrightarrow>
     int_keys (cart s) \<and>
     (\<forall>(pid, qty)\<in>set (cart s). \<forall>n. py_int pid = Inr n \<longrightarrow> n \<notin> p_id ` set (products s))"
proof
  assume "\<exists>tot. cart_items rnd s = Inr ([], tot)"
  then obtain tot where ci: "cart_items rnd s = Inr ([], tot)" ..
  have "spec_items rnd (by_id_of (products s)) (cart s) = []"
    using cart_items_Inr(1) [OF ci] by simp
  then show "int_keys (cart s) \<and>
     (\<forall>(pid, qty)\<in>set (cart s). \<forall>n. py_int pid = Inr n \<longrightarrow> n \<notin> p_id ` set (products s))"
    using cart_items_int_keys [OF ci]
    by (simp add: spec_items_Nil_iff by_id_of_None)
next
  assume a: "int_keys (cart s) \<and>
     (\<forall>(pid, qty)\<in>set (cart s). \<forall>n. py_int pid = Inr n \<longrightarrow> n \<notin> p_id ` set (products s))"
  then have "spec_items rnd (by_id_of (products s)) (cart s) = []"
    by (simp add: spec_items_Nil_iff by_id_of_None)
  moreover have "quantities_in_range (by_id_of (products s)) (cart s)"
    using a by (auto simp: quantities_in_range_iff by_id_of_None)
  ultimately show "\<exists>tot. cart_items rnd s = Inr ([], tot)"
    using cart_items_spec [of s rnd] a by simp
qed

text \<open>
  C2. When the resolved item list is empty, a checkout POST answers with the redirect and
  the warning flash \<^verbatim>\<open>Your cart is empty.\<close>, leaves the orders as they were and leaves
  the cart as it was; the total is then 0. By \<open>cart_items_empty_iff\<close> these are the
  empty cart and the carts whose ids are all stale.
\<close>

theorem checkout_empty_cart:
  assumes "req_method req = POST" and "cart_items rnd s = Inr ([], tot)"
  shows "checkout rnd s req = (Inr (Redirect ''/''), flash ''Your cart is empty.'' ''warning'' s) \<and>
         orders (snd (checkout rnd s req)) = orders s \<and>
         cart (snd (checkout rnd s req)) = cart s \<and>
         tot = 0"
proof -
  have "tot = foldl (+) 0 (map li_line_total [])"
    using cart_items_Inr(1,2) [OF assms(2)] by (simp add: spec_total_def)
  then show ?thesis
    by (simp add: checkout_POST [OF assms])
qed

text \<open>
  C3. For a checkout POST with a non-empty item list: when the commit fails the outcome
  is the error and the state is unchanged, cart included; when it succeeds one order
  with a fresh id is appended, the cart is empty afterwards, and the flash reports the
  order's id. In any state and for any request, a checkout that changes the cart has
  appended an order and emptied the cart.
\<close>

theorem checkout_persist_then_clear:
  assumes "req_method req = POST" and "cart_items rnd s = Inr (items, tot)" and "items \<noteq> []"
  shows "(\<not> commit_ok req \<longrightarrow> checkout rnd s req = (Inl CommitError, s)) \<and>
         (commit_ok req \<longrightarrow>
            (\<exists>ord. checkout rnd s req =
                     (Inr (Redirect ''/''),
                      flash (''Order #'' @ py_str (o_id ord) @ '' placed successfully!'') ''success''
                        (s\<lparr>orders := orders s @ [ord], cart := []\<rparr>)) \<and>
                   o_id ord = next_id (map o_id (orders s)) \<and>
                   o_id ord \<notin> o_id ` set (orders s) \<and>
                   o_items_json ord = map order_item_of items \<and>
                   o_total ord = tot \<and> o_user_id ord = current_user req)) \<and>
         (\<forall>s' req'. cart (snd (checkout rnd s' req')) \<noteq> cart s' \<longrightarrow>
            (\<exists>ord. orders (snd (checkout rnd s' req')) = orders s' @ [ord] \<and>
                   cart (snd (checkout rnd s' req')) = []))"
proof (intro conjI impI allI)
  assume "\<not> commit_ok req"
  then show "checkout rnd s req = (Inl CommitError, s)"
    using assms(3) by (simp add: checkout_POST [OF assms(1,2)])
next
  assume ok: "commit_ok req"
  let ?new = "\<lparr>o_id = next_id (map o_id (orders s)), o_user_id = current_user req,
                 o_items_json = map order_item_of items, o_total = tot,
                 o_created_at = now req\<rparr>"
  have "o_id ?new \<notin> o_id ` set (orders s)"
    using next_id_fresh [of "map o_id (orders s)"] by simp
  moreover have "checkout rnd s req =
      (Inr (Redirect ''/''),
       flash (''Order #'' @ py_str (o_id ?new) @ '' placed successfully!'') ''success''
         (s\<lparr>orders := orders s @ [?new], cart := []\<rparr>))"
    using ok assms(3) by (simp add: checkout_POST [OF assms(1,2)])
  ultimately show "\<exists>ord. checkout rnd s req =
                     (Inr (Redirect ''/''),
                      flash (''Order #'' @ py_str (o_id ord) @ '' placed successfully!'') ''success''
                        (s\<lparr>orders := orders s @ [ord], cart := []\<rparr>)) \<and>
                   o_id ord = next_id (map o_id (orders s)) \<and>
                   o_id ord \<notin> o_id ` set (orders s) \<and>
                   o_items_json ord = map order_item_of items \<and>
                   o_total ord = tot \<and> o_user_id ord = current_user req"
    by (intro exI [of _ ?new]) simp
next
  fix s' req'
  assume "cart (snd (checkout rnd s' req')) \<noteq> cart s'"
  then show "\<exists>ord. orders (snd (checkout rnd s' req')) = orders s' @ [ord] \<and>
                   cart (snd (checkout rnd s' req')) = []"
    by (rule checkout_cart_cleared)
qed


lemma demo_cart_items_5:
  "cart s = [(Some ''5'', 2)] \<Longrightarrow> products s = [demo_product] \<Longrightarrow>
   cart_items demo_round s = Inr ([\<lparr>li_product = demo_product, li_qty = 2, li_line_total = 200\<rparr>], 200)"
  by (simp add: cart_items_def get_cart_def py_int_5 by_id_of_def float_of_int_def float_range_2)
    (simp add: demo_product_def demo_round_def)

lemma demo_cart_items_7:
  "cart s = [(Some ''7'', 1)] \<Longrightarrow> products s = [demo_product] \<Longrightarrow>
   cart_items demo_round s = Inr ([], 0)"
  by (simp add: cart_items_def get_cart_def py_int_7 by_id_of_def)
    (simp add: demo_product_def)

lemma next_id_Nil: "next_id [] = 1"
  by (simp add: next_id_def)

lemma py_str_1: "py_str 1 = ''1''"
  by code_simp

theorem checkout_empty_cart_witness:
  "cart_items demo_round (demo_state\<lparr>cart := [(Some ''7'', 1)]\<rparr>) = Inr ([], 0) \<and>
   checkout demo_round (demo_state\<lparr>cart := [(Some ''7'', 1)]\<rparr>) (post []) =
     (Inr (Redirect ''/''),
      flash ''Your cart is empty.'' ''warning'' (demo_state\<lparr>cart := [(Some ''7'', 1)]\<rparr>)) \<and>
   orders (snd (checkout demo_round (demo_state\<lparr>cart := [(Some ''7'', 1)]\<rparr>) (post []))) = [] \<and>
   cart (snd (checkout demo_round (demo_state\<lparr>cart := [(Some ''7'', 1)]\<rparr>) (post []))) = [(Some ''7'', 1)]"
proof -
  let ?s = "demo_state\<lparr>cart := [(Some ''7'', 1)]\<rparr>"
  have m: "req_method (post []) = POST"
    by (simp add: post_def)
  have ci: "cart_items demo_round ?s = Inr ([], 0)"
    by (rule demo_cart_items_7) (simp_all add: demo_state_def)
  show ?thesis
    using checkout_empty_cart [OF m ci] ci by (simp add: demo_state_def)
qed

theorem checkout_persist_then_clear_witness:
  "checkout demo_round (demo_state\<lparr>cart := [(Some ''5'', 2)]\<rparr>) ((post [])\<lparr>commit_ok := False\<rparr>) =
     (Inl CommitError, demo_state\<lparr>cart := [(Some ''5'', 2)]\<rparr>) \<and>
   cart (snd (checkout demo_round (demo_state\<lparr>cart := [(Some ''5'', 2)]\<rparr>) (post []))) = [] \<and>
   map o_id (orders (snd (checkout demo_round (demo_state\<lparr>cart := [(Some ''5'', 2)]\<rparr>) (post [])))) = [1] \<and>
   flashes (snd (checkout demo_round (demo_state\<lparr>cart := [(Some ''5'', 2)]\<rparr>) (post []))) =
     [(''Order #1 placed successfully!'', ''success'')]"
proof -
  let ?s = "demo_state\<lparr>cart := [(Some ''5'', 2)]\<rparr>"
  let ?items = "[\<lparr>li_product = demo_product, li_qty = 2, li_line_total = 200\<rparr>]"
  have ci: "cart_items demo_round ?s = Inr (?items, 200)"
    by (rule demo_cart_items_5) (simp_all add: demo_state_def)
  have ne: "?items \<noteq> []"
    by simp
  have m: "req_method (post []) = POST" and m': "req_method ((post [])\<lparr>commit_ok := False\<rparr>) = POST"
    by (simp_all add: post_def)
  have ok: "commit_ok (post [])" and no: "\<not> commit_ok ((post [])\<lparr>commit_ok := False\<rparr>)"
    by (simp_all add: post_def)
  have o: "orders demo_state = []" and f: "flashes demo_state = []"
    by (simp_all add: demo_state_def)
  have fail: "checkout demo_round ?s ((post [])\<lparr>commit_ok := False\<rparr>) = (Inl CommitError, ?s)"
    using checkout_persist_then_clear [OF m' ci ne] no by blast
  obtain ord where ord: "checkout demo_round ?s (post []) =
       (Inr (Redirect ''/''),
        flash (''Order #'' @ py_str (o_id ord) @ '' placed successfully!'') ''success''
          (?s\<lparr>orders := orders ?s @ [ord], cart := []\<rparr>))"
    and oid: "o_id ord = next_id (map o_id (orders ?s))"
    using checkout_persist_then_clear [OF m ci ne] ok by blast
  have "o_id ord = 1"
    using oid by (simp add: o next_id_Nil)
  then show ?thesis
    using fail by (simp add: ord o f flash_def py_str_1)
qed



section \<open>Malformed quantities\<close>

lemma int_of_str_error: "int_of_str v = Inl e \<Longrightarrow> e = ValueError"
  by (auto simp: int_of_str_def split: list.splits if_splits option.splits)

lemma int_of_str_abc: "int_of_str ''abc'' = Inl ValueError"
  by (simp add: int_of_str_eval)

text \<open>
  C5, as amended. A quantity field that \<^verbatim>\<open>int\<close> does not read makes \<^verbatim>\<open>add_to_cart\<close>, and
  \<^verbatim>\<open>cart_view\<close> with action \<open>update\<close>, raise \<open>ValueError\<close> out of the handler: the input is
  neither clamped nor answered with a warning, and the state (cart and flashed messages
  included) is unchanged.
\<close>

theorem malformed_qty_raises:
  assumes "form req ''qty'' = Some v" and "int_of_str v = Inl e"
  shows "e = ValueError \<and>
         add_to_cart s pid req = (Inl ValueError, s) \<and>
         (req_method req = POST \<and> form req ''action'' = Some ''update'' \<longrightarrow>
            cart_view rnd s req = (Inl ValueError, s))"
proof -
  have e: "e = ValueError"
    using assms(2) by (rule int_of_str_error)
  have q: "qty_of_form req = Inl ValueError"
    using assms e by (simp add: qty_of_form_def)
  have "add_to_cart s pid req = (Inl ValueError, s)"
    using q by (simp add: add_to_cart_def)
  moreover have "cart_view rnd s req = (Inl ValueError, s)"
    if "req_method req = POST" "form req ''action'' = Some ''update''"
    using that q by (simp add: cart_view_def cart_post_def)
  ultimately show ?thesis
    using e by simp
qed

theorem malformed_qty_raises_witness:
  "add_to_cart demo_state 5 (post [(''action'', ''update''), (''pid'', ''5''), (''qty'', ''abc'')]) =
     (Inl ValueError, demo_state) \<and>
   cart_view demo_round demo_state (post [(''action'', ''update''), (''pid'', ''5''), (''qty'', ''abc'')]) =
     (Inl ValueError, demo_state)"
proof -
  let ?req = "post [(''action'', ''update''), (''pid'', ''5''), (''qty'', ''abc'')]"
  have f: "form ?req ''qty'' = Some ''abc''"
    by (simp add: post_def)
  have m: "req_method ?req = POST \<and> form ?req ''action'' = Some ''update''"
    by (simp add: post_def)
  show ?thesis
    using malformed_qty_raises
      [OF f int_of_str_abc, where s = demo_state and pid = 5 and rnd = demo_round] m
    by blast
qed

text \<open>
  The claim as stated fails: with the quantity \<^verbatim>\<open>abc\<close> both operations end in the
  uncaught \<open>ValueError\<close>, with no flashed warning.
\<close>

theorem malformed_qty_counterexample:
  "add_to_cart demo_state 5 (post [(''qty'', ''abc'')]) = (Inl ValueError, demo_state) \<and>
   cart_view demo_round demo_state (post [(''action'', ''update''), (''pid'', ''5''), (''qty'', ''abc'')]) =
     (Inl ValueError, demo_state)"
  by (simp add: add_to_cart_def cart_view_def cart_post_def qty_of_form_def post_def
      int_of_str_abc)

section \<open>Registration\<close>

lemma find_email_None:
  "find (\<lambda>u. u_email u = e) us = None \<longleftrightarrow> e \<notin> u_email ` set us"
  by (auto simp: find_None_iff)

lemma register_POST:
  assumes "req_method req = POST" and "form req ''name'' = Some name0"
    and "form req ''email'' = Some email0" and "form req ''password'' = Some password"
  shows "register s req =
     (if strip (lower email0) \<in> u_email ` set (users s) then
        (Inr (Redirect ''/register''), flash ''Email already registered.'' ''warning'' s)
      else if commit_ok req then
        (Inr (Redirect ''/login''),
         flash ''Registration successful. Please login.'' ''success''
           (s\<lparr>users := users s @
                 [\<lparr>u_id = next_id (map u_id (users s)), u_name = strip name0,
                   u_email = strip (lower email0),
                   u_password_hash = generate_password_hash req password\<rparr>]\<rparr>))
      else (Inl CommitError, s))"
proof (cases "find (\<lambda>u. u_email u = strip (lower email0)) (users s)")
  case None
  then have "strip (lower email0) \<notin> u_email ` set (users s)"
    by (simp add: find_email_None)
  then show ?thesis
    using assms None by (simp add: register_def Let_def)
next
  case (Some u)
  then have "strip (lower email0) \<in> u_email ` set (users s)"
    using find_email_None [of "strip (lower email0)" "users s"] by auto
  then show ?thesis
    using assms Some by (simp add: register_def Let_def)
qed

text \<open>
  C9. For a registration POST with its three fields and any user table: when the
  lower-cased, stripped email is the email of an existing user, the outcome is the
  redirect with the warning \<^verbatim>\<open>Email already registered.\<close> and the user table is
  unchanged; otherwise, when the commit succeeds, exactly one user is appended, with a
  fresh id, the stripped name, the normalised email, and as password field the value
  of the hashing capability on the password. The normalised email is then in the user
  table, so a second registration with an email that differs only in case is a
  duplicate.
\<close>

theorem register_duplicate_email:
  assumes "req_method req = POST" and "form req ''name'' = Some name0"
    and "form req ''email'' = Some email0" and "form req ''password'' = Some password"
  shows "(strip (lower email0) \<in> u_email ` set (users s) \<longrightarrow>
            register s req =
              (Inr (Redirect ''/register''), flash ''Email already registered.'' ''warning'' s) \<and>
            users (snd (register s req)) = users s) \<and>
         (strip (lower email0) \<notin> u_email ` set (users s) \<and> commit_ok req \<longrightarrow>
            register s req =
              (Inr (Redirect ''/login''),
               flash ''Registration successful. Please login.'' ''success''
                 (s\<lparr>users := users s @
                       [\<lparr>u_id = next_id (map u_id (users s)), u_name = strip name0,
                         u_email = strip (lower email0),
                         u_password_hash = generate_password_hash req password\<rparr>]\<rparr>)) \<and>
            next_id (map u_id (users s)) \<notin> u_id ` set (users s) \<and>
            strip (lower email0) \<in> u_email ` set (users (snd (register s req))))"
proof (intro conjI impI)
  assume "strip (lower email0) \<in> u_email ` set (users s)"
  then show "register s req =
      (Inr (Redirect ''/register''), flash ''Email already registered.'' ''warning'' s)"
    and "users (snd (register s req)) = users s"
    by (simp_all add: register_POST [OF assms])
next
  assume a: "strip (lower email0) \<notin> u_email ` set (users s) \<and> commit_ok req"
  then show "register s req =
              (Inr (Redirect ''/login''),
               flash ''Registration successful. Please login.'' ''success''
                 (s\<lparr>users := users s @
                       [\<lparr>u_id = next_id (map u_id (users s)), u_name = strip name0,
                         u_email = strip (lower email0),
                         u_password_hash = generate_password_hash req password\<rparr>]\<rparr>))"
    by (simp add: register_POST [OF assms])
  then show "strip (lower email0) \<in> u_email ` set (users (snd (register s req)))"
    by simp
  show "next_id (map u_id (users s)) \<notin> u_id ` set (users s)"
    using next_id_fresh [of "map u_id (users s)"] by simp
qed

lemma lower_strip_Test: "strip (lower ''Test@x.com'') = ''test@x.com''"
  by code_simp

lemma lower_strip_test: "strip (lower ''test@x.com'') = ''test@x.com''"
  by code_simp


lemma strip_Ann: "strip ''Ann'' = ''Ann''"
  by code_simp

lemma demo_hash_pw: "generate_password_hash (demo_register n e) ''pw'' = ''$2b$12$2''"
  unfolding demo_register_def post_def by code_simp

lemma demo_register_fields:
  "req_method (demo_register n e) = POST" "form (demo_register n e) ''name'' = Some n"
  "form (demo_register n e) ''email'' = Some e" "form (demo_register n e) ''password'' = Some ''pw''"
  "commit_ok (demo_register n e)"
  by (simp_all add: demo_register_def post_def)

text \<open>
  \<^verbatim>\<open>Test@x.com\<close> is registered first; \<^verbatim>\<open>test@x.com\<close> then collides and adds no user.
\<close>

theorem register_duplicate_email_witness:
  "users (snd (register demo_state (demo_register ''Ann'' ''Test@x.com''))) =
     [\<lparr>u_id = 1, u_name = ''Ann'', u_email = ''test@x.com'', u_password_hash = ''$2b$12$2''\<rparr>] \<and>
   register (snd (register demo_state (demo_register ''Ann'' ''Test@x.com'')))
       (demo_register ''Bob'' ''test@x.com'') =
     (Inr (Redirect ''/register''),
      flash ''Email already registered.'' ''warning''
        (snd (register demo_state (demo_register ''Ann'' ''Test@x.com'')))) \<and>
   users (snd (register (snd (register demo_state (demo_register ''Ann'' ''Test@x.com'')))
       (demo_register ''Bob'' ''test@x.com''))) =
     users (snd (register demo_state (demo_register ''Ann'' ''Test@x.com'')))"
proof -
  let ?r1 = "demo_register ''Ann'' ''Test@x.com''"
  let ?r2 = "demo_register ''Bob'' ''test@x.com''"
  let ?s1 = "snd (register demo_state ?r1)"
  have u0: "users demo_state = []"
    by (simp add: demo_state_def)
  have fresh: "strip (lower ''Test@x.com'') \<notin> u_email ` set (users demo_state) \<and> commit_ok ?r1"
    by (simp add: u0 demo_register_fields)
  note first = register_duplicate_email [OF demo_register_fields(1-4), where s = demo_state,
      THEN conjunct2, rule_format, OF fresh]
  have users1: "users ?s1 =
      [\<lparr>u_id = 1, u_name = ''Ann'', u_email = ''test@x.com'', u_password_hash = ''$2b$12$2''\<rparr>]"
    using first [THEN conjunct1]
    by (simp add: u0 next_id_Nil strip_Ann lower_strip_Test demo_hash_pw)
  have dup: "strip (lower ''test@x.com'') \<in> u_email ` set (users ?s1)"
    by (simp add: users1 lower_strip_test)
  note second = register_duplicate_email [OF demo_register_fields(1-4), where s = ?s1,
      THEN conjunct1, rule_format, OF dup]
  show ?thesis
    using users1 second by blast
qed

end
